theory Spec2Isabelle
  imports Complex_Main
begin

section \<open>The optimizer base class of phre, embedded in HOL\<close>

text \<open>
  The source is \<^verbatim>\<open>src/phre/optimizer/optimizer.py\<close>: the class \<^verbatim>\<open>Optimizer\<close> with its
  constructor, the abstract \<^verbatim>\<open>phase_retrieval\<close>, the two proximal operators, the objective
  and the two history methods.

  Modelling decisions.
  \<^item> The entries of a numpy array are modelled as reals: arithmetic is exact, and an array
    holds no not-a-number and no infinity. Rounding of float64 is outside the model.
  \<^item> A Python float that is appended to a history list is a \<open>pyfloat\<close>: a real or the
    not-a-number value \<^verbatim>\<open>np.nan\<close>.
  \<^item> numpy arrays are mutable and can share memory, and \<^verbatim>\<open>_soft_prox\<close> writes to its
    argument in place. Memory is therefore explicit: the store is a list of buffers, and
    an array object is a view, which names a buffer and, for each of its elements, the
    cell of that buffer holding it. A whole array, a slice (\<^verbatim>\<open>a[:]\<close>, \<^verbatim>\<open>a[::-1]\<close>,
    \<^verbatim>\<open>a[1:]\<close>), a row \<^verbatim>\<open>M[i]\<close>, a column \<^verbatim>\<open>M[:, j]\<close> and \<^verbatim>\<open>M.ravel()\<close> of a stored
    matrix are all views of this kind. Two views share memory when they name a common
    cell.
  \<^item> Every method is a function from its arguments and the state (the optimizer object and
    the store) to a result, which is an error or a value, and the state it leaves behind.
    An error keeps the state reached when it was raised.
  \<^item> Arrays that are local to a call are held as values; the array a method returns is
    allocated in a new buffer when it returns.
\<close>

subsection \<open>Errors and floats\<close>

datatype error = NotImplementedError | ValueError | IndexError

datatype pyfloat = Float real | NaN

definition bind_err :: "error + 'a \<Rightarrow> ('a \<Rightarrow> error + 'b) \<Rightarrow> error + 'b" where
  "bind_err m f = (case m of Inl e \<Rightarrow> Inl e | Inr x \<Rightarrow> f x)"

subsection \<open>Memory, views and array values\<close>

type_synonym store = "real list list"

text \<open>A one-dimensional view: element \<open>k\<close> is cell \<open>idx ! k\<close> of buffer \<open>buf\<close>.\<close>

record vref =
  buf :: nat
  idx :: "nat list"

text \<open>
  A two-dimensional view: element \<open>(i, j)\<close> is cell \<open>midx ! i ! j\<close> of buffer \<open>mbuf\<close>; its
  shape is \<open>(length midx, mcols)\<close>.
\<close>

record mref =
  mbuf :: nat
  mcols :: nat
  midx :: "nat list list"

text \<open>The value of a two-dimensional array: its number of columns and its rows.\<close>

record matrix =
  ncols :: nat
  rows :: "real list list"

definition wf_matrix :: "matrix \<Rightarrow> bool" where
  "wf_matrix M = list_all (\<lambda>r. length r = ncols M) (rows M)"

text \<open>
  A view is valid in a store when its buffer exists and its cells lie within it. The
  cells of a one-dimensional view are distinct, as those of a writable numpy view are.
\<close>

definition valid_ref :: "store \<Rightarrow> vref \<Rightarrow> bool" where
  "valid_ref s v \<longleftrightarrow>
     buf v < length s \<and> list_all (\<lambda>i. i < length (s ! buf v)) (idx v) \<and> distinct (idx v)"

definition valid_mat :: "store \<Rightarrow> mref \<Rightarrow> bool" where
  "valid_mat s m \<longleftrightarrow>
     mbuf m < length s \<and>
     list_all (\<lambda>r. length r = mcols m \<and> list_all (\<lambda>i. i < length (s ! mbuf m)) r) (midx m)"

definition read_vec :: "store \<Rightarrow> vref \<Rightarrow> real list" where
  "read_vec s v = map (\<lambda>i. s ! buf v ! i) (idx v)"

definition read_mat :: "store \<Rightarrow> mref \<Rightarrow> matrix" where
  "read_mat s m =
     \<lparr>ncols = mcols m, rows = map (\<lambda>r. map (\<lambda>i. s ! mbuf m ! i) r) (midx m)\<rparr>"

text \<open>Writing the values \<open>xs\<close>, in order, into the cells \<open>js\<close> of a buffer.\<close>

fun scatter :: "real list \<Rightarrow> nat list \<Rightarrow> real list \<Rightarrow> real list" where
  "scatter b (j # js) (x # xs) = scatter (b[j := x]) js xs"
| "scatter b _ _ = b"

definition write_vec :: "store \<Rightarrow> vref \<Rightarrow> real list \<Rightarrow> store" where
  "write_vec s v xs = s[buf v := scatter (s ! buf v) (idx v) xs]"

text \<open>A new array is a new buffer and the view of the whole of it.\<close>

definition alloc :: "store \<Rightarrow> real list \<Rightarrow> vref \<times> store" where
  "alloc s xs = (\<lparr>buf = length s, idx = [0..<length xs]\<rparr>, s @ [xs])"

text \<open>Two views share memory when some cell belongs to both.\<close>

definition shares_memory :: "vref \<Rightarrow> vref \<Rightarrow> bool" where
  "shares_memory v r \<longleftrightarrow> buf v = buf r \<and> set (idx v) \<inter> set (idx r) \<noteq> {}"

definition shares_memory_mat :: "vref \<Rightarrow> mref \<Rightarrow> bool" where
  "shares_memory_mat v m \<longleftrightarrow> buf v = mbuf m \<and> set (idx v) \<inter> set (concat (midx m)) \<noteq> {}"

subsection \<open>The numpy operations the class uses\<close>

text \<open>\<^verbatim>\<open>np.sign\<close> and \<^verbatim>\<open>np.abs\<close>, element by element.\<close>

definition np_sign :: "real list \<Rightarrow> real list" where
  "np_sign xs = map sgn xs"

definition np_abs :: "real list \<Rightarrow> real list" where
  "np_abs xs = map abs xs"

text \<open>
  A binary operation on two one-dimensional arrays broadcasts: equal lengths combine
  element by element, an array of length one is stretched to the other's length, and any
  other pair of lengths raises \<^verbatim>\<open>ValueError\<close>.
\<close>

definition np_broadcast :: "('a \<Rightarrow> 'b \<Rightarrow> 'c) \<Rightarrow> 'a list \<Rightarrow> 'b list \<Rightarrow> error + 'c list" where
  "np_broadcast f xs ys =
     (if length xs = length ys then Inr (map2 f xs ys)
      else if length xs = 1 then Inr (map (f (hd xs)) ys)
      else if length ys = 1 then Inr (map (\<lambda>x. f x (hd ys)) xs)
      else Inl ValueError)"

text \<open>
  The in-place \<^verbatim>\<open>w *= t\<close>: the result has the shape of \<open>w\<close>, so only \<open>t\<close> may be
  stretched.
\<close>

definition np_imul :: "real list \<Rightarrow> real list \<Rightarrow> error + real list" where
  "np_imul w t =
     (if length t = length w then Inr (map2 (*) w t)
      else if length t = 1 then Inr (map (\<lambda>x. x * hd t) w)
      else Inl ValueError)"

text \<open>
  Indexing with a boolean mask. \<^verbatim>\<open>a[mask]\<close> is the list of the entries of \<open>a\<close> where the
  mask is true; \<^verbatim>\<open>a[mask] = vals\<close> overwrites those entries, in order, with \<open>vals\<close>. A mask
  whose length is not that of \<open>a\<close> raises \<^verbatim>\<open>IndexError\<close>; values that are neither as many as
  the true entries of the mask nor a single value raise \<^verbatim>\<open>ValueError\<close>.
\<close>

fun mask_select :: "'a list \<Rightarrow> bool list \<Rightarrow> 'a list" where
  "mask_select (x # xs) (b # bs) = (if b then x # mask_select xs bs else mask_select xs bs)"
| "mask_select _ _ = []"

fun mask_assign :: "'a list \<Rightarrow> bool list \<Rightarrow> 'a list \<Rightarrow> 'a list" where
  "mask_assign (w # ws) (b # bs) vals =
     (if b then (case vals of [] \<Rightarrow> w # ws | y # ys \<Rightarrow> y # mask_assign ws bs ys)
      else w # mask_assign ws bs vals)"
| "mask_assign ws _ _ = ws"

definition np_getitem :: "'a list \<Rightarrow> bool list \<Rightarrow> error + 'a list" where
  "np_getitem a msk =
     (if length msk \<noteq> length a then Inl IndexError else Inr (mask_select a msk))"

definition np_setitem :: "'a list \<Rightarrow> bool list \<Rightarrow> 'a list \<Rightarrow> error + 'a list" where
  "np_setitem a msk vals =
     (if length msk \<noteq> length a then Inl IndexError
      else if length vals = length (filter id msk) then Inr (mask_assign a msk vals)
      else if length vals = 1
        then Inr (mask_assign a msk (replicate (length (filter id msk)) (hd vals)))
      else Inl ValueError)"

text \<open>
  \<^verbatim>\<open>M.dot(x)\<close> for a two-dimensional \<open>M\<close> and a one-dimensional \<open>x\<close>: the number of
  columns must be the length of \<open>x\<close>, else \<^verbatim>\<open>ValueError\<close>.
\<close>

definition np_dot :: "matrix \<Rightarrow> real list \<Rightarrow> error + real list" where
  "np_dot M x =
     (if ncols M \<noteq> length x then Inl ValueError
      else Inr (map (\<lambda>r. sum_list (map2 (*) r x)) (rows M)))"

subsection \<open>The class\<close>

record 't Optimizer =
  obs_mat :: mref
  obs :: vref
  obj_type :: 't
  num_obs :: nat
  image_size :: nat
  obj_his :: "pyfloat list"
  err_his :: "pyfloat list"

type_synonym 't st = "'t Optimizer \<times> store"

text \<open>
  \<^verbatim>\<open>__init__\<close>: the three arguments are stored as they are (the arrays by reference), the
  two sizes are read from the shape of the operator, and both histories start empty.
  There is no check in the source, and so no error branch here.
\<close>

definition Optimizer_init :: "mref \<Rightarrow> vref \<Rightarrow> 't \<Rightarrow> store \<Rightarrow> (error + 't Optimizer) \<times> store" where
  "Optimizer_init mat_ref obs_ref ty s =
     (Inr \<lparr>obs_mat = mat_ref, obs = obs_ref, obj_type = ty,
           num_obs = length (midx mat_ref),
           image_size = mcols mat_ref,
           obj_his = [], err_his = []\<rparr>, s)"

text \<open>The default of the third parameter is the string \<^verbatim>\<open>'soft'\<close>.\<close>

definition Optimizer_init_default :: "mref \<Rightarrow> vref \<Rightarrow> store \<Rightarrow> (error + string Optimizer) \<times> store" where
  "Optimizer_init_default mat_ref obs_ref s = Optimizer_init mat_ref obs_ref ''soft'' s"

definition phase_retrieval :: "'o \<Rightarrow> 't st \<Rightarrow> (error + 'r) \<times> 't st" where
  "phase_retrieval fit_options st = (Inl NotImplementedError, st)"

fun soft_prox :: "vref \<Rightarrow> real \<Rightarrow> 't st \<Rightarrow> (error + vref) \<times> 't st" where
  "soft_prox v alpha (self, s) =
     (let sign_v = np_sign (read_vec s v);
          s1 = write_vec s v (map2 (*) (read_vec s v) sign_v);
          w = read_vec s1 (obs self);
          res =
            bind_err (np_broadcast (\<lambda>x y. x > y) (read_vec s1 v)
                        (map (\<lambda>b. b + alpha) (read_vec s1 (obs self)))) (\<lambda>r_index.
            bind_err (np_broadcast (\<lambda>x y. x < y) (read_vec s1 v)
                        (map (\<lambda>b. b - alpha) (read_vec s1 (obs self)))) (\<lambda>l_index.
            bind_err (np_getitem (read_vec s1 v) r_index) (\<lambda>vr.
            bind_err (np_setitem w r_index (map (\<lambda>x. x - alpha) vr)) (\<lambda>w1.
            bind_err (np_getitem (read_vec s1 v) l_index) (\<lambda>vl.
            bind_err (np_setitem w1 l_index (map (\<lambda>x. x + alpha) vl)) (\<lambda>w2.
            np_imul w2 sign_v))))))
      in case res of
           Inl e \<Rightarrow> (Inl e, (self, s1))
         | Inr w3 \<Rightarrow> (case alloc s1 w3 of (p, s2) \<Rightarrow> (Inr p, (self, s2))))"

fun hard_prox :: "vref \<Rightarrow> 't st \<Rightarrow> (error + vref) \<times> 't st" where
  "hard_prox v (self, s) =
     (let sign_v = np_sign (read_vec s v);
          w = read_vec s (obs self)
      in case np_imul w sign_v of
           Inl e \<Rightarrow> (Inl e, (self, s))
         | Inr w1 \<Rightarrow> (case alloc s w1 of (p, s2) \<Rightarrow> (Inr p, (self, s2))))"

fun objective :: "vref \<Rightarrow> 't st \<Rightarrow> (error + real) \<times> 't st" where
  "objective x (self, s) =
     (bind_err (np_dot (read_mat s (obs_mat self)) (read_vec s x)) (\<lambda>y.
      bind_err (np_broadcast (-) (np_abs y) (read_vec s (obs self))) (\<lambda>d.
      Inr (sum_list (np_abs d)))),
      (self, s))"

fun reset_solver_info :: "'t st \<Rightarrow> (error + unit) \<times> 't st" where
  "reset_solver_info (self, s) = (Inr (), (self\<lparr>obj_his := [], err_his := []\<rparr>, s))"

fun record_solver_info :: "pyfloat option \<Rightarrow> pyfloat option \<Rightarrow> 't st \<Rightarrow> (error + unit) \<times> 't st" where
  "record_solver_info obj err (self, s) =
     (let obj1 = (case obj of None \<Rightarrow> NaN | Some a \<Rightarrow> a);
          err1 = (case err of None \<Rightarrow> NaN | Some b \<Rightarrow> b)
      in (Inr (), (self\<lparr>obj_his := obj_his self @ [obj1],
                        err_his := err_his self @ [err1]\<rparr>, s)))"

declare soft_prox.simps [simp del]
declare hard_prox.simps [simp del]
declare objective.simps [simp del]

subsection \<open>Observing results and states\<close>

text \<open>The contents of the array a proximal operator hands back, read in the state it leaves.\<close>

definition returned :: "(error + vref) \<times> 't st \<Rightarrow> error + real list" where
  "returned r = (case fst r of Inl e \<Rightarrow> Inl e | Inr p \<Rightarrow> Inr (read_vec (snd (snd r)) p))"

text \<open>
  An optimizer that is as the constructor leaves it, over an operator that is a valid
  view in the store.
\<close>

definition well_formed :: "store \<Rightarrow> 't Optimizer \<Rightarrow> bool" where
  "well_formed s self \<longleftrightarrow>
     valid_mat s (obs_mat self) \<and>
     num_obs self = length (midx (obs_mat self)) \<and>
     image_size self = mcols (obs_mat self)"

text \<open>The two histories have the same length.\<close>

definition aligned :: "'t st \<Rightarrow> bool" where
  "aligned st \<longleftrightarrow> length (obj_his (fst st)) = length (err_his (fst st))"

text \<open>A caller's loop: one \<^verbatim>\<open>record_solver_info\<close> call per pair of arguments, in order.\<close>

fun record_calls :: "(pyfloat option \<times> pyfloat option) list \<Rightarrow> 't st \<Rightarrow> 't st" where
  "record_calls [] st = st"
| "record_calls ((obj, err) # cs) st = record_calls cs (snd (record_solver_info obj err st))"

text \<open>The same state with another value in the objective-type field.\<close>

fun with_type :: "'t \<Rightarrow> 't st \<Rightarrow> 't st" where
  "with_type ty (self, s) = (self\<lparr>obj_type := ty\<rparr>, s)"

subsection \<open>The closed forms of the specification\<close>

text \<open>
  The soft proximal operator at one coordinate, as the specification words it: with
  \<open>sg = sign(v)\<close> and \<open>v' = |v|\<close>, the result starts at the observation \<open>b\<close>, is
  \<open>v' - alpha\<close> where \<open>v' > b + alpha\<close>, is \<open>v' + alpha\<close> where \<open>v' < b - alpha\<close>, stays at
  \<open>b\<close> otherwise, and is multiplied by \<open>sg\<close>.
\<close>

definition soft_prox_spec :: "real \<Rightarrow> real \<Rightarrow> real \<Rightarrow> real" where
  "soft_prox_spec b x alpha =
     (let sg = sgn x; v' = \<bar>x\<bar>;
          w = (if v' > b + alpha then v' - alpha
               else if v' < b - alpha then v' + alpha
               else b)
      in w * sg)"

text \<open>
  What the source computes for arrays of equal length, for any \<open>alpha\<close>: the assignment
  under \<^verbatim>\<open>l_index\<close> comes second and so overrides the one under \<^verbatim>\<open>r_index\<close>.
\<close>

definition soft_out :: "real \<Rightarrow> real list \<Rightarrow> real list \<Rightarrow> real list" where
  "soft_out alpha vs os =
     map (\<lambda>i. (if \<bar>vs ! i\<bar> < os ! i - alpha then \<bar>vs ! i\<bar> + alpha
                else if \<bar>vs ! i\<bar> > os ! i + alpha then \<bar>vs ! i\<bar> - alpha
                else os ! i) * sgn (vs ! i)) [0..<length vs]"

subsection \<open>The scenario of the specification\<close>

text \<open>
  Buffer 0 holds the observations \<open>[3, 4]\<close> and buffer 6 the 2 by 2 identity, row by row;
  the optimizer of the scenario stores the views of the whole of each. Buffers 1 to 5
  hold arguments of the calls below, and buffer 7 holds a second operator, with a
  negative entry.
\<close>

definition scenario_store :: store where
  "scenario_store =
     [[3, 4], [5, 5], [-5, 5], [0, 0], [-3, 4], [1, 2, 3], [1, 0, 0, 1], [-1, 0, 0, 1]]"

definition vec2 :: "nat \<Rightarrow> vref" where
  "vec2 b = \<lparr>buf = b, idx = [0, 1]\<rparr>"

definition mat2 :: "nat \<Rightarrow> mref" where
  "mat2 b = \<lparr>mbuf = b, mcols = 2, midx = [[0, 1], [2, 3]]\<rparr>"

definition scenario_opt :: "string Optimizer" where
  "scenario_opt =
     \<lparr>obs_mat = mat2 6, obs = vec2 0, obj_type = ''soft'', num_obs = 2, image_size = 2,
      obj_his = [], err_his = []\<rparr>"

section \<open>Properties\<close>

subsection \<open>Memory\<close>

lemma length_scatter: "length (scatter b js xs) = length b"
  by (induction b js xs rule: scatter.induct) simp_all

lemma scatter_outside: "j \<notin> set js \<Longrightarrow> scatter b js xs ! j = b ! j"
  by (induction b js xs rule: scatter.induct) simp_all

lemma scatter_inside:
  "length js = length xs \<Longrightarrow> distinct js \<Longrightarrow> \<forall>j\<in>set js. j < length b \<Longrightarrow> k < length js \<Longrightarrow>
   scatter b js xs ! (js ! k) = xs ! k"
proof (induction js xs arbitrary: b k rule: list_induct2)
  case Nil
  then show ?case by simp
next
  case (Cons j js x xs)
  show ?case
  proof (cases k)
    case 0
    with Cons.prems show ?thesis by (simp add: scatter_outside)
  next
    case (Suc k')
    with Cons.prems Cons.IH [of "b[j := x]" k'] show ?thesis by simp
  qed
qed

lemma length_write: "length (write_vec s v xs) = length s"
  by (simp add: write_vec_def)

text \<open>
  Overwriting a view with its absolute value, cell by cell: the cells of the view hold the
  absolute value of what they held, and every other cell of the store is as it was.
\<close>

lemma abs_in_place_cell:
  assumes "valid_ref s v"
  shows "write_vec s v (map abs (read_vec s v)) ! c ! j
           = (if c = buf v \<and> j \<in> set (idx v) then \<bar>s ! c ! j\<bar> else s ! c ! j)"
proof (cases "c = buf v")
  case False
  then show ?thesis by (simp add: write_vec_def)
next
  case True
  let ?b = "s ! buf v" and ?js = "idx v"
  let ?xs = "map abs (read_vec s v)"
  from assms have bv: "buf v < length s" and dist: "distinct ?js"
    and bound: "\<forall>j\<in>set ?js. j < length ?b"
    by (simp_all add: valid_ref_def list_all_iff)
  have cell: "write_vec s v ?xs ! c = scatter ?b ?js ?xs"
    using True bv by (simp add: write_vec_def)
  show ?thesis
  proof (cases "j \<in> set ?js")
    case False
    with cell True show ?thesis by (simp add: scatter_outside)
  next
    case in_v: True
    then obtain k where k: "k < length ?js" and j: "j = ?js ! k"
      by (auto simp: in_set_conv_nth)
    have "scatter ?b ?js ?xs ! (?js ! k) = ?xs ! k"
      using k dist bound by (intro scatter_inside) (simp_all add: read_vec_def)
    with cell True in_v k j show ?thesis by (simp add: read_vec_def)
  qed
qed

lemma read_abs_in_place_self:
  assumes "valid_ref s v"
  shows "read_vec (write_vec s v (map abs (read_vec s v))) v = map abs (read_vec s v)"
  by (simp add: read_vec_def [of "write_vec s v (map abs (read_vec s v))"]
      abs_in_place_cell [OF assms]) (simp add: read_vec_def)

lemma read_abs_in_place_other:
  assumes "valid_ref s v"
    and "\<not> shares_memory v r \<or> (\<forall>b\<in>set (read_vec s r). 0 \<le> b)"
  shows "read_vec (write_vec s v (map abs (read_vec s v))) r = read_vec s r"
proof -
  have "write_vec s v (map abs (read_vec s v)) ! buf r ! j = s ! buf r ! j"
    if "j \<in> set (idx r)" for j
  proof (cases "buf r = buf v \<and> j \<in> set (idx v)")
    case False
    then show ?thesis by (auto simp: abs_in_place_cell [OF assms(1)])
  next
    case True
    with that have "shares_memory v r" by (auto simp: shares_memory_def)
    with assms(2) have "\<forall>b\<in>set (read_vec s r). 0 \<le> b" by simp
    with that have "0 \<le> s ! buf r ! j" by (simp add: read_vec_def)
    then show ?thesis by (auto simp: abs_in_place_cell [OF assms(1)])
  qed
  then show ?thesis
    by (simp add: read_vec_def [of "write_vec s v (map abs (read_vec s v))"])
      (simp add: read_vec_def)
qed

lemma read_mat_abs_in_place:
  assumes "valid_ref s v" and "\<not> shares_memory_mat v m"
  shows "read_mat (write_vec s v (map abs (read_vec s v))) m = read_mat s m"
proof -
  have "write_vec s v (map abs (read_vec s v)) ! mbuf m ! j = s ! mbuf m ! j"
    if "r \<in> set (midx m)" and "j \<in> set r" for r j
  proof -
    from that assms(2) have "\<not> (mbuf m = buf v \<and> j \<in> set (idx v))"
      by (auto simp: shares_memory_mat_def)
    then show ?thesis by (auto simp: abs_in_place_cell [OF assms(1)])
  qed
  then show ?thesis by (simp add: read_mat_def)
qed

lemma read_extend_old: "buf r < length s \<Longrightarrow> read_vec (s @ [xs]) r = read_vec s r"
  by (simp add: read_vec_def nth_append)

lemma read_mat_extend_old: "mbuf m < length s \<Longrightarrow> read_mat (s @ [xs]) m = read_mat s m"
  by (simp add: read_mat_def nth_append)

lemma read_new: "read_vec (s @ [xs]) \<lparr>buf = length s, idx = [0..<length xs]\<rparr> = xs"
  by (simp add: read_vec_def map_nth)

lemma read_alloc: "read_vec (snd (alloc s xs)) (fst (alloc s xs)) = xs"
  by (simp add: alloc_def read_new)

subsection \<open>Boolean masks\<close>

lemma length_mask_select:
  "length a = length m \<Longrightarrow> length (mask_select a m) = length (filter id m)"
  by (induction a m rule: list_induct2) simp_all

lemma length_mask_assign: "length (mask_assign w m vals) = length w"
  by (induction w m vals rule: mask_assign.induct) (simp_all split: list.splits)

lemma mask_assign_nth:
  "length w = length m \<Longrightarrow> length m = length a \<Longrightarrow> i < length m \<Longrightarrow>
   mask_assign w m (map f (mask_select a m)) ! i = (if m ! i then f (a ! i) else w ! i)"
proof (induction w m a arbitrary: i rule: list_induct3)
  case Nil
  then show ?case by simp
next
  case (Cons x xs y ys z zs)
  then show ?case by (cases i) simp_all
qed

subsection \<open>The soft proximal operator\<close>

lemma abs_by_sign: "map2 (*) xs (np_sign xs) = map abs (xs :: real list)"
  by (induction xs) (simp_all add: np_sign_def abs_sgn)

text \<open>The array computation of lines 64 to 71, on arrays of equal length.\<close>

lemma soft_chain:
  fixes a b t :: "real list"
  assumes ab: "length a = length b" and ta: "length t = length a"
  shows "bind_err (np_broadcast (\<lambda>x y. x > y) a (map (\<lambda>b. b + alpha) b)) (\<lambda>r_index.
         bind_err (np_broadcast (\<lambda>x y. x < y) a (map (\<lambda>b. b - alpha) b)) (\<lambda>l_index.
         bind_err (np_getitem a r_index) (\<lambda>vr.
         bind_err (np_setitem b r_index (map (\<lambda>x. x - alpha) vr)) (\<lambda>w1.
         bind_err (np_getitem a l_index) (\<lambda>vl.
         bind_err (np_setitem w1 l_index (map (\<lambda>x. x + alpha) vl)) (\<lambda>w2.
         np_imul w2 t))))))
       = Inr (map (\<lambda>i. (if a ! i < b ! i - alpha then a ! i + alpha
                          else if a ! i > b ! i + alpha then a ! i - alpha
                          else b ! i) * t ! i) [0..<length a])"
proof -
  define R where "R = map2 (\<lambda>x y. x > y) a (map (\<lambda>b. b + alpha) b)"
  define L where "L = map2 (\<lambda>x y. x < y) a (map (\<lambda>b. b - alpha) b)"
  define W1 where "W1 = mask_assign b R (map (\<lambda>x. x - alpha) (mask_select a R))"
  define W2 where "W2 = mask_assign W1 L (map (\<lambda>x. x + alpha) (mask_select a L))"
  let ?out = "map (\<lambda>i. (if a ! i < b ! i - alpha then a ! i + alpha
                          else if a ! i > b ! i + alpha then a ! i - alpha
                          else b ! i) * t ! i) [0..<length a]"
  have lR: "length R = length a" and lL: "length L = length a"
    using ab by (simp_all add: R_def L_def)
  have lW1: "length W1 = length a" and lW2: "length W2 = length a"
    using ab by (simp_all add: W1_def W2_def length_mask_assign)
  have chain: "?thesis \<longleftrightarrow> Inr (map2 (*) W2 t) = Inr ?out"
    using ab ta lR lL lW1 lW2
    by (simp add: np_broadcast_def np_getitem_def np_setitem_def np_imul_def bind_err_def
        length_mask_select R_def [symmetric] L_def [symmetric] W1_def [symmetric]
        W2_def [symmetric])
  have nth1: "W1 ! i = (if R ! i then a ! i - alpha else b ! i)" if "i < length a" for i
    unfolding W1_def using that ab lR by (simp add: mask_assign_nth)
  have nth2: "W2 ! i = (if L ! i then a ! i + alpha else W1 ! i)" if "i < length a" for i
    unfolding W2_def using that lW1 lL by (simp add: mask_assign_nth)
  have "map2 (*) W2 t = ?out"
  proof (rule nth_equalityI)
    show "length (map2 (*) W2 t) = length ?out"
      using ta lW2 by simp
  next
    fix i assume "i < length (map2 (*) W2 t)"
    then have i: "i < length a" using ta lW2 by simp
    then show "map2 (*) W2 t ! i = ?out ! i"
      using ab ta lW2 by (simp add: nth1 nth2 R_def L_def)
  qed
  with chain show ?thesis by simp
qed

text \<open>
  The whole call, when the lengths agree and the argument shares no memory with the
  stored observation array (or that array has no negative entry, so that taking absolute
  values in place leaves it as it is).
\<close>

lemma soft_prox_result:
  assumes valid: "valid_ref s v"
    and len: "length (read_vec s v) = length (read_vec s (obs self))"
    and share: "\<not> shares_memory v (obs self) \<or> (\<forall>b\<in>set (read_vec s (obs self)). 0 \<le> b)"
  shows "soft_prox v alpha (self, s) =
           (Inr (fst (alloc (write_vec s v (map abs (read_vec s v)))
                       (soft_out alpha (read_vec s v) (read_vec s (obs self))))),
            (self, snd (alloc (write_vec s v (map abs (read_vec s v)))
                          (soft_out alpha (read_vec s v) (read_vec s (obs self))))))"
proof -
  define vs where "vs = read_vec s v"
  define os where "os = read_vec s (obs self)"
  define s1 where "s1 = write_vec s v (map abs vs)"
  have rv: "read_vec s1 v = map abs vs"
    unfolding s1_def vs_def using valid by (rule read_abs_in_place_self)
  have ro: "read_vec s1 (obs self) = os"
    unfolding s1_def vs_def os_def using valid share by (rule read_abs_in_place_other)
  have l1: "length (map abs vs) = length os" using len by (simp add: vs_def os_def)
  have l2: "length (np_sign vs) = length (map abs vs)" by (simp add: np_sign_def)
  have out: "map (\<lambda>i. (if map abs vs ! i < os ! i - alpha then map abs vs ! i + alpha
                          else if map abs vs ! i > os ! i + alpha then map abs vs ! i - alpha
                          else os ! i) * np_sign vs ! i) [0..<length (map abs vs)]
             = soft_out alpha vs os"
    by (simp add: soft_out_def np_sign_def)
  show ?thesis
    unfolding vs_def [symmetric] os_def [symmetric] s1_def [symmetric]
    by (simp add: soft_prox.simps Let_def abs_by_sign vs_def [symmetric] s1_def [symmetric]
        rv ro soft_chain [OF l1 l2] out split: prod.splits del: length_map)
qed

lemma soft_out_spec:
  assumes "length vs = length os" and "0 < alpha"
  shows "soft_out alpha vs os = map2 (\<lambda>x b. soft_prox_spec b x alpha) vs os"
proof (rule nth_equalityI)
  show "length (soft_out alpha vs os) = length (map2 (\<lambda>x b. soft_prox_spec b x alpha) vs os)"
    using assms by (simp add: soft_out_def)
next
  fix i assume "i < length (soft_out alpha vs os)"
  then have "i < length vs" by (simp add: soft_out_def)
  then show "soft_out alpha vs os ! i = map2 (\<lambda>x b. soft_prox_spec b x alpha) vs os ! i"
    using assms by (simp add: soft_out_def soft_prox_spec_def)
qed

text \<open>
  Claim C1. For every reference vector \<open>v\<close> of length \<open>num_obs\<close> and every \<open>alpha > 0\<close>,
  the soft proximal operator returns a new array holding the closed form of the
  specification at every coordinate. At a coordinate on the boundary, where
  \<open>|v| = Observations + alpha\<close>, the flat branch is taken: the output is the observation
  with the sign of \<open>v\<close> restored, which is the observation itself for a positive \<open>v\<close>.
  The argument may be any array that shares no memory with the stored observation array,
  or any array at all when the observations are non-negative as the data model requires.
\<close>

theorem soft_prox_closed_form:
  assumes "valid_ref s v"
    and "length (read_vec s v) = num_obs self"
    and "length (read_vec s (obs self)) = num_obs self"
    and "\<not> shares_memory v (obs self) \<or> (\<forall>b\<in>set (read_vec s (obs self)). 0 \<le> b)"
    and "0 < alpha"
  shows "\<exists>out. returned (soft_prox v alpha (self, s)) = Inr out
           \<and> out = map2 (\<lambda>x b. soft_prox_spec b x alpha) (read_vec s v) (read_vec s (obs self))
           \<and> (\<forall>i<num_obs self.
                 \<bar>read_vec s v ! i\<bar> = read_vec s (obs self) ! i + alpha \<longrightarrow>
                 out ! i = read_vec s (obs self) ! i * sgn (read_vec s v ! i)
                 \<and> (0 < read_vec s v ! i \<longrightarrow> out ! i = read_vec s (obs self) ! i))"
proof -
  let ?vs = "read_vec s v" and ?os = "read_vec s (obs self)"
  have len: "length ?vs = length ?os" using assms(2,3) by simp
  have run: "returned (soft_prox v alpha (self, s)) = Inr (soft_out alpha ?vs ?os)"
    using soft_prox_result [OF assms(1) len assms(4), of alpha]
    by (simp add: returned_def read_alloc)
  have spec: "soft_out alpha ?vs ?os = map2 (\<lambda>x b. soft_prox_spec b x alpha) ?vs ?os"
    using len assms(5) by (rule soft_out_spec)
  have flat: "soft_out alpha ?vs ?os ! i = ?os ! i * sgn (?vs ! i)
              \<and> (0 < ?vs ! i \<longrightarrow> soft_out alpha ?vs ?os ! i = ?os ! i)"
    if "i < num_obs self" and "\<bar>?vs ! i\<bar> = ?os ! i + alpha" for i
    using that assms(2,5) by (simp add: soft_out_def)
  from run spec flat show ?thesis by (metis (no_types, lifting))
qed

theorem soft_prox_closed_form_witness:
  "returned (soft_prox (vec2 1) 1 (scenario_opt, scenario_store)) = Inr [4, 4]"
proof -
  have h1: "valid_ref scenario_store (vec2 1)"
    by (simp add: valid_ref_def vec2_def scenario_store_def)
  have h2: "length (read_vec scenario_store (vec2 1)) = num_obs scenario_opt"
    by (simp add: read_vec_def vec2_def scenario_opt_def)
  have h3: "length (read_vec scenario_store (obs scenario_opt)) = num_obs scenario_opt"
    by (simp add: read_vec_def vec2_def scenario_opt_def)
  have h4: "\<not> shares_memory (vec2 1) (obs scenario_opt)
            \<or> (\<forall>b\<in>set (read_vec scenario_store (obs scenario_opt)). 0 \<le> b)"
    by (simp add: shares_memory_def vec2_def scenario_opt_def)
  have h5: "(0::real) < 1" by simp
  from soft_prox_closed_form [OF h1 h2 h3 h4 h5]
  obtain out where "returned (soft_prox (vec2 1) 1 (scenario_opt, scenario_store)) = Inr out"
    and "out = map2 (\<lambda>x b. soft_prox_spec b x 1)
                 (read_vec scenario_store (vec2 1)) (read_vec scenario_store (obs scenario_opt))"
    by blast
  then show ?thesis
    by (simp add: read_vec_def vec2_def scenario_store_def scenario_opt_def soft_prox_spec_def)
qed

subsection \<open>The hard proximal operator\<close>

lemma hard_prox_result:
  assumes len: "length (read_vec s v) = length (read_vec s (obs self))"
  shows "hard_prox v (self, s) =
           (Inr (fst (alloc s (map2 (\<lambda>x b. sgn x * b) (read_vec s v) (read_vec s (obs self))))),
            (self, snd (alloc s (map2 (\<lambda>x b. sgn x * b) (read_vec s v)
                                   (read_vec s (obs self))))))"
proof -
  have "map2 (*) (read_vec s (obs self)) (map sgn (read_vec s v))
        = map2 (\<lambda>x b. sgn x * b) (read_vec s v) (read_vec s (obs self))"
    using len by (intro nth_equalityI) (simp_all add: mult.commute)
  then show ?thesis
    using len
    by (simp add: hard_prox.simps Let_def np_imul_def np_sign_def split: prod.splits)
qed

text \<open>
  Claim C2. For every reference vector \<open>v\<close> of length \<open>num_obs\<close>, the hard proximal
  operator returns a new array holding \<open>sign(v) * Observations\<close> at every coordinate.
  So, when no observation is negative, the magnitude of the output is the observation
  wherever \<open>v\<close> is not zero; and the output is zero wherever \<open>v\<close> is zero.
\<close>

theorem hard_prox_closed_form:
  assumes "length (read_vec s v) = num_obs self"
    and "length (read_vec s (obs self)) = num_obs self"
  shows "\<exists>out. returned (hard_prox v (self, s)) = Inr out
           \<and> out = map2 (\<lambda>x b. sgn x * b) (read_vec s v) (read_vec s (obs self))
           \<and> ((\<forall>b\<in>set (read_vec s (obs self)). 0 \<le> b) \<longrightarrow>
                (\<forall>i<num_obs self. read_vec s v ! i \<noteq> 0 \<longrightarrow>
                   \<bar>out ! i\<bar> = read_vec s (obs self) ! i))
           \<and> (\<forall>i<num_obs self. read_vec s v ! i = 0 \<longrightarrow> out ! i = 0)"
proof -
  let ?vs = "read_vec s v" and ?os = "read_vec s (obs self)"
  let ?out = "map2 (\<lambda>x b. sgn x * b) ?vs ?os"
  have len: "length ?vs = length ?os" using assms by simp
  have run: "returned (hard_prox v (self, s)) = Inr ?out"
    using hard_prox_result [OF len] by (simp add: returned_def read_alloc)
  have nth: "?out ! i = sgn (?vs ! i) * ?os ! i" if "i < num_obs self" for i
    using that assms by simp
  have mag: "\<bar>?out ! i\<bar> = ?os ! i"
    if "\<forall>b\<in>set ?os. 0 \<le> b" and "i < num_obs self" and "?vs ! i \<noteq> 0" for i
  proof -
    from that(1,2) assms(2) have "0 \<le> ?os ! i" by simp
    with that(2,3) show ?thesis by (simp add: nth abs_mult)
  qed
  have zero: "?out ! i = 0" if "i < num_obs self" and "?vs ! i = 0" for i
    using that by (simp add: nth)
  from run mag zero show ?thesis by blast
qed

theorem hard_prox_closed_form_witness:
  "returned (hard_prox (vec2 2) (scenario_opt, scenario_store)) = Inr [-3, 4]"
proof -
  have h1: "length (read_vec scenario_store (vec2 2)) = num_obs scenario_opt"
    by (simp add: read_vec_def vec2_def scenario_store_def scenario_opt_def)
  have h2: "length (read_vec scenario_store (obs scenario_opt)) = num_obs scenario_opt"
    by (simp add: read_vec_def vec2_def scenario_store_def scenario_opt_def)
  from hard_prox_closed_form [OF h1 h2]
  obtain out where "returned (hard_prox (vec2 2) (scenario_opt, scenario_store)) = Inr out"
    and "out = map2 (\<lambda>x b. sgn x * b)
                 (read_vec scenario_store (vec2 2)) (read_vec scenario_store (obs scenario_opt))"
    by blast
  then show ?thesis
    by (simp add: read_vec_def vec2_def scenario_store_def scenario_opt_def)
qed

subsection \<open>The objective\<close>

lemma sum_list_map2_index:
  fixes r x :: "real list"
  assumes "length r = length x"
  shows "sum_list (map2 (*) r x) = (\<Sum>j<length x. r ! j * x ! j)"
proof -
  have "sum_list (map2 (*) r x) = (\<Sum>j = 0..<length (map2 (*) r x). map2 (*) r x ! j)"
    by (rule sum_list_sum_nth)
  also have "\<dots> = (\<Sum>j = 0..<length x. r ! j * x ! j)"
    using assms by (intro sum.cong) simp_all
  finally show ?thesis by (simp add: atLeast0LessThan)
qed

lemma wf_read_mat: "valid_mat s m \<Longrightarrow> wf_matrix (read_mat s m)"
  by (simp add: valid_mat_def wf_matrix_def read_mat_def list_all_iff)

lemma objective_result:
  assumes wf: "wf_matrix (read_mat s (obs_mat self))"
    and cols: "length (read_vec s x) = ncols (read_mat s (obs_mat self))"
    and len: "length (read_vec s (obs self)) = length (rows (read_mat s (obs_mat self)))"
  shows "objective x (self, s) =
           (Inr (\<Sum>i<length (rows (read_mat s (obs_mat self))).
                   \<bar>\<bar>\<Sum>j<ncols (read_mat s (obs_mat self)).
                        rows (read_mat s (obs_mat self)) ! i ! j * read_vec s x ! j\<bar>
                     - read_vec s (obs self) ! i\<bar>),
            (self, s))"
proof -
  let ?M = "read_mat s (obs_mat self)" and ?x = "read_vec s x" and ?os = "read_vec s (obs self)"
  let ?y = "map (\<lambda>r. sum_list (map2 (*) r ?x)) (rows ?M)"
  let ?d = "map2 (-) (np_abs ?y) ?os"
  have row: "length (rows ?M ! i) = length ?x" if "i < length (rows ?M)" for i
    using wf cols that by (simp add: wf_matrix_def list_all_length)
  have y: "sum_list (map2 (*) (rows ?M ! i) ?x) = (\<Sum>j<ncols ?M. rows ?M ! i ! j * ?x ! j)"
    if "i < length (rows ?M)" for i
    using that row [OF that] cols by (simp add: sum_list_map2_index)
  have "sum_list (np_abs ?d) = (\<Sum>i = 0..<length (np_abs ?d). np_abs ?d ! i)"
    by (rule sum_list_sum_nth)
  also have "\<dots> = (\<Sum>i = 0..<length (rows ?M).
                      \<bar>\<bar>\<Sum>j<ncols ?M. rows ?M ! i ! j * ?x ! j\<bar> - ?os ! i\<bar>)"
    using len by (intro sum.cong) (simp_all add: np_abs_def y)
  finally have total: "sum_list (np_abs ?d)
      = (\<Sum>i<length (rows ?M). \<bar>\<bar>\<Sum>j<ncols ?M. rows ?M ! i ! j * ?x ! j\<bar> - ?os ! i\<bar>)"
    by (simp add: atLeast0LessThan)
  have "objective x (self, s) = (Inr (sum_list (np_abs ?d)), (self, s))"
    using cols len
    by (simp add: objective.simps np_dot_def np_broadcast_def bind_err_def np_abs_def)
  with total show ?thesis by simp
qed

text \<open>
  Claim C3. For every candidate \<open>x\<close> of length \<open>image_size\<close>, the objective is the sum
  over the observations of \<open>| |(A x)_i| - Observations_i |\<close>, and the call changes nothing.
  In the scenario of the specification (identity operator, observations \<open>[3, 4]\<close>) the
  objective of \<open>[3, 4]\<close> is 0 and that of \<open>[0, 0]\<close> is 7.
\<close>

theorem objective_value:
  assumes "well_formed s self"
    and "length (read_vec s (obs self)) = num_obs self"
    and "length (read_vec s x) = image_size self"
  shows "objective x (self, s) =
           (Inr (\<Sum>i<num_obs self.
                   \<bar>\<bar>\<Sum>j<image_size self.
                        rows (read_mat s (obs_mat self)) ! i ! j * read_vec s x ! j\<bar>
                     - read_vec s (obs self) ! i\<bar>),
            (self, s))
         \<and> fst (objective (vec2 0) (scenario_opt, scenario_store)) = Inr 0
         \<and> fst (objective (vec2 3) (scenario_opt, scenario_store)) = Inr 7"
proof -
  have shape: "length (rows (read_mat s (obs_mat self))) = num_obs self"
    "ncols (read_mat s (obs_mat self)) = image_size self"
    using assms(1) by (simp_all add: well_formed_def read_mat_def)
  have wf: "wf_matrix (read_mat s (obs_mat self))"
    using assms(1) by (simp add: well_formed_def wf_read_mat)
  have general: "objective x (self, s) =
           (Inr (\<Sum>i<num_obs self.
                   \<bar>\<bar>\<Sum>j<image_size self.
                        rows (read_mat s (obs_mat self)) ! i ! j * read_vec s x ! j\<bar>
                     - read_vec s (obs self) ! i\<bar>),
            (self, s))"
    using objective_result [of s self x] wf assms(2,3) by (simp add: shape)
  have a: "fst (objective (vec2 0) (scenario_opt, scenario_store)) = Inr 0"
    by (simp add: objective.simps scenario_opt_def scenario_store_def np_dot_def
        np_broadcast_def bind_err_def np_abs_def read_vec_def read_mat_def vec2_def mat2_def)
  have b: "fst (objective (vec2 3) (scenario_opt, scenario_store)) = Inr 7"
    by (simp add: objective.simps scenario_opt_def scenario_store_def np_dot_def
        np_broadcast_def bind_err_def np_abs_def read_vec_def read_mat_def vec2_def mat2_def)
  from general a b show ?thesis by simp
qed

theorem objective_value_witness:
  "objective (vec2 1) (scenario_opt, scenario_store) = (Inr 3, (scenario_opt, scenario_store))"
proof -
  have h1: "well_formed scenario_store scenario_opt"
    by (simp add: well_formed_def valid_mat_def scenario_store_def scenario_opt_def mat2_def)
  have h2: "length (read_vec scenario_store (obs scenario_opt)) = num_obs scenario_opt"
    by (simp add: read_vec_def vec2_def scenario_opt_def)
  have h3: "length (read_vec scenario_store (vec2 1)) = image_size scenario_opt"
    by (simp add: read_vec_def vec2_def scenario_opt_def)
  have two: "{..<2::nat} = {0, 1}" by auto
  from objective_value [OF h1 h2 h3] show ?thesis
    by (simp add: scenario_store_def scenario_opt_def two read_vec_def read_mat_def
        vec2_def mat2_def)
qed

subsection \<open>The soft proximal operator at \<open>alpha = 0\<close>\<close>

lemma soft_out_zero: "soft_out 0 vs os = vs"
proof (rule nth_equalityI)
  show "length (soft_out 0 vs os) = length vs" by (simp add: soft_out_def)
next
  fix i assume "i < length (soft_out 0 vs os)"
  then have "i < length vs" by (simp add: soft_out_def)
  then show "soft_out 0 vs os ! i = vs ! i"
    by (auto simp: soft_out_def sgn_real_def abs_real_def)
qed

text \<open>
  In the scenario, with \<open>alpha = 0\<close> the soft proximal operator maps \<open>[5, 5]\<close> to
  \<open>[5, 5]\<close>, while the hard proximal operator maps it to \<open>[3, 4]\<close>: with a band of width
  zero, \<^verbatim>\<open>r_index\<close> holds wherever \<open>|v|\<close> exceeds the observation, and there the result is
  \<open>|v| - 0\<close>, not the observation.
\<close>

theorem soft_prox_alpha_zero_counterexample:
  "returned (soft_prox (vec2 1) 0 (scenario_opt, scenario_store)) = Inr [5, 5]
   \<and> returned (hard_prox (vec2 1) (scenario_opt, scenario_store)) = Inr [3, 4]
   \<and> returned (soft_prox (vec2 1) 0 (scenario_opt, scenario_store))
       \<noteq> returned (hard_prox (vec2 1) (scenario_opt, scenario_store))"
  by (simp add: returned_def soft_prox.simps hard_prox.simps scenario_opt_def scenario_store_def
      Let_def np_sign_def np_broadcast_def np_getitem_def np_setitem_def np_imul_def
      bind_err_def alloc_def read_vec_def write_vec_def vec2_def)

text \<open>
  Claim C4, amended. For every reference vector \<open>v\<close> of length \<open>num_obs\<close>, the soft
  proximal operator called with \<open>alpha = 0\<close> returns the values of \<open>v\<close> themselves
  (\<open>sign(v) * |v|\<close>). It agrees with the hard proximal operator, which returns
  \<open>sign(v) * Observations\<close>, exactly at the coordinates where \<open>|v|\<close> is the observation or
  \<open>v\<close> is zero.
\<close>

theorem soft_prox_alpha_zero:
  assumes "valid_ref s v"
    and "length (read_vec s v) = num_obs self"
    and "length (read_vec s (obs self)) = num_obs self"
    and "\<not> shares_memory v (obs self) \<or> (\<forall>b\<in>set (read_vec s (obs self)). 0 \<le> b)"
  shows "\<exists>sout hout. returned (soft_prox v 0 (self, s)) = Inr sout
           \<and> returned (hard_prox v (self, s)) = Inr hout
           \<and> sout = read_vec s v
           \<and> hout = map2 (\<lambda>x b. sgn x * b) (read_vec s v) (read_vec s (obs self))
           \<and> (\<forall>i<num_obs self.
                 sout ! i = hout ! i \<longleftrightarrow>
                 \<bar>read_vec s v ! i\<bar> = read_vec s (obs self) ! i \<or> read_vec s v ! i = 0)"
proof -
  let ?vs = "read_vec s v" and ?os = "read_vec s (obs self)"
  let ?hout = "map2 (\<lambda>x b. sgn x * b) ?vs ?os"
  have len: "length ?vs = length ?os" using assms(2,3) by simp
  have soft: "returned (soft_prox v 0 (self, s)) = Inr ?vs"
    using soft_prox_result [OF assms(1) len assms(4), of 0]
    by (simp add: returned_def read_alloc soft_out_zero)
  have hard: "returned (hard_prox v (self, s)) = Inr ?hout"
    using hard_prox_result [OF len] by (simp add: returned_def read_alloc)
  have agree: "?vs ! i = ?hout ! i \<longleftrightarrow> \<bar>?vs ! i\<bar> = ?os ! i \<or> ?vs ! i = 0"
    if "i < num_obs self" for i
  proof -
    have "?hout ! i = sgn (?vs ! i) * ?os ! i" using that assms(2,3) by simp
    then show ?thesis by (auto simp: sgn_real_def abs_real_def split: if_splits)
  qed
  from soft hard agree show ?thesis by blast
qed

theorem soft_prox_alpha_zero_witness:
  "returned (soft_prox (vec2 2) 0 (scenario_opt, scenario_store)) = Inr [-5, 5]"
proof -
  have h1: "valid_ref scenario_store (vec2 2)"
    by (simp add: valid_ref_def vec2_def scenario_store_def)
  have h2: "length (read_vec scenario_store (vec2 2)) = num_obs scenario_opt"
    by (simp add: read_vec_def vec2_def scenario_opt_def)
  have h3: "length (read_vec scenario_store (obs scenario_opt)) = num_obs scenario_opt"
    by (simp add: read_vec_def vec2_def scenario_opt_def)
  have h4: "\<not> shares_memory (vec2 2) (obs scenario_opt)
            \<or> (\<forall>b\<in>set (read_vec scenario_store (obs scenario_opt)). 0 \<le> b)"
    by (simp add: shares_memory_def vec2_def scenario_opt_def)
  from soft_prox_alpha_zero [OF h1 h2 h3 h4]
  obtain sout where "returned (soft_prox (vec2 2) 0 (scenario_opt, scenario_store)) = Inr sout"
    and "sout = read_vec scenario_store (vec2 2)"
    by blast
  then show ?thesis by (simp add: read_vec_def vec2_def scenario_store_def)
qed

subsection \<open>Construction\<close>

text \<open>
  In the scenario store the operator has two rows and buffer 5 has three entries;
  constructing an optimizer from the operator and the whole of buffer 5 succeeds.
\<close>

theorem init_no_shape_check_counterexample:
  "Optimizer_init (mat2 6) \<lparr>buf = 5, idx = [0, 1, 2]\<rparr> ''soft'' scenario_store
     = (Inr \<lparr>obs_mat = mat2 6, obs = \<lparr>buf = 5, idx = [0, 1, 2]\<rparr>, obj_type = ''soft'',
             num_obs = 2, image_size = 2, obj_his = [], err_his = []\<rparr>, scenario_store)
   \<and> length (read_vec scenario_store \<lparr>buf = 5, idx = [0, 1, 2]\<rparr>) = 3
   \<and> length (rows (read_mat scenario_store (mat2 6))) = 2
   \<and> \<not> isl (fst (Optimizer_init (mat2 6) \<lparr>buf = 5, idx = [0, 1, 2]\<rparr> ''soft''
                  scenario_store))"
  by (simp add: Optimizer_init_def read_vec_def read_mat_def mat2_def)

text \<open>
  Claim C5, amended. The constructor checks no shape: for every operator and every
  observation vector, whatever its length, construction succeeds, storing the operator,
  the observation vector and the selector as given, with \<open>num_obs\<close> and \<open>image_size\<close> read
  from the shape of the operator and both histories empty. No error is raised at
  construction.
\<close>

theorem init_always_succeeds:
  "Optimizer_init mat_ref obs_ref ty s
     = (Inr \<lparr>obs_mat = mat_ref, obs = obs_ref, obj_type = ty,
             num_obs = length (rows (read_mat s mat_ref)),
             image_size = ncols (read_mat s mat_ref), obj_his = [], err_his = []\<rparr>, s)
   \<and> \<not> isl (fst (Optimizer_init mat_ref obs_ref ty s))"
  by (simp add: Optimizer_init_def read_mat_def)

subsection \<open>The fitting history\<close>

text \<open>
  Claim C6. Every call to \<^verbatim>\<open>record_solver_info\<close> appends exactly one entry to the
  objective history and exactly one to the error history, and changes nothing else: an
  omitted argument is recorded as not-a-number, a provided argument is appended as given.
\<close>

theorem record_solver_info_appends:
  "\<exists>self'. record_solver_info obj err (self, s) = (Inr (), (self', s))
     \<and> obj_his self' = obj_his self @ [case obj of None \<Rightarrow> NaN | Some a \<Rightarrow> a]
     \<and> err_his self' = err_his self @ [case err of None \<Rightarrow> NaN | Some b \<Rightarrow> b]
     \<and> length (obj_his self') = length (obj_his self) + 1
     \<and> length (err_his self') = length (err_his self) + 1
     \<and> obj_his (fst (snd (record_solver_info None None (self, s)))) = obj_his self @ [NaN]
     \<and> err_his (fst (snd (record_solver_info None None (self, s)))) = err_his self @ [NaN]
     \<and> obj_his (fst (snd (record_solver_info (Some a) (Some b) (self, s)))) = obj_his self @ [a]
     \<and> err_his (fst (snd (record_solver_info (Some a) (Some b) (self, s)))) = err_his self @ [b]"
  by (simp add: Let_def)

lemma record_calls_lengths:
  "length (obj_his (fst (record_calls cs st))) = length (obj_his (fst st)) + length cs
   \<and> length (err_his (fst (record_calls cs st))) = length (err_his (fst st)) + length cs"
proof (induction cs arbitrary: st)
  case Nil
  then show ?case by simp
next
  case (Cons c cs)
  obtain obj err where c: "c = (obj, err)" by (cases c)
  obtain self s where st: "st = (self, s)" by (cases st)
  show ?case using Cons.IH [of "snd (record_solver_info obj err st)"]
    by (simp add: c st Let_def)
qed

lemma soft_prox_self: "fst (snd (soft_prox v alpha (self, s))) = self"
  by (simp add: soft_prox.simps Let_def alloc_def split: sum.splits)

lemma hard_prox_self: "fst (snd (hard_prox v (self, s))) = self"
  by (simp add: hard_prox.simps Let_def alloc_def split: sum.splits)

text \<open>
  Claim C7. \<^verbatim>\<open>reset_solver_info\<close> empties both histories; a reset followed by any number
  of \<^verbatim>\<open>record_solver_info\<close> calls leaves both histories with exactly that many entries;
  and the two histories have the same length after construction and after every
  operation that starts from histories of the same length.
\<close>

theorem history_alignment:
  "obj_his (fst (snd (reset_solver_info st))) = []
   \<and> err_his (fst (snd (reset_solver_info st))) = []
   \<and> length (obj_his (fst (record_calls cs (snd (reset_solver_info st))))) = length cs
   \<and> length (err_his (fst (record_calls cs (snd (reset_solver_info st))))) = length cs
   \<and> (\<forall>opt. fst (Optimizer_init mat_ref obs_ref ty s0) = Inr opt \<longrightarrow> aligned (opt, s0))
   \<and> (aligned st \<longrightarrow>
        aligned (snd (reset_solver_info st))
        \<and> aligned (snd (record_solver_info obj err st))
        \<and> aligned (snd (soft_prox v alpha st))
        \<and> aligned (snd (hard_prox v st))
        \<and> aligned (snd (objective x st))
        \<and> aligned (snd (phase_retrieval fit_options st :: (error + unit) \<times> 't st)))"
proof -
  obtain self s where st: "st = (self, s)" by (cases st)
  have r1: "obj_his (fst (snd (reset_solver_info st))) = []"
    and r2: "err_his (fst (snd (reset_solver_info st))) = []"
    by (simp_all add: st)
  have n: "length (obj_his (fst (record_calls cs (snd (reset_solver_info st))))) = length cs
     \<and> length (err_his (fst (record_calls cs (snd (reset_solver_info st))))) = length cs"
    using record_calls_lengths [of cs "snd (reset_solver_info st)"] r1 r2 by simp
  have i: "\<forall>opt. fst (Optimizer_init mat_ref obs_ref ty s0) = Inr opt \<longrightarrow> aligned (opt, s0)"
    by (auto simp: Optimizer_init_def aligned_def)
  have p: "aligned (snd (reset_solver_info st))
        \<and> aligned (snd (record_solver_info obj err st))
        \<and> aligned (snd (soft_prox v alpha st))
        \<and> aligned (snd (hard_prox v st))
        \<and> aligned (snd (objective x st))
        \<and> aligned (snd (phase_retrieval fit_options st :: (error + unit) \<times> 't st))"
    if "aligned st"
    using that
    by (simp add: st aligned_def Let_def soft_prox_self hard_prox_self objective.simps
        phase_retrieval_def)
  from r1 r2 n i p show ?thesis by blast
qed

theorem history_alignment_witness:
  "aligned (scenario_opt, scenario_store)
   \<and> aligned (snd (record_solver_info None (Some (Float 2)) (scenario_opt, scenario_store)))
   \<and> length (obj_his (fst (record_calls [(None, None), (Some (Float 1), None)]
               (snd (reset_solver_info (scenario_opt, scenario_store)))))) = 2"
proof -
  have h: "aligned (scenario_opt, scenario_store)"
    by (simp add: aligned_def scenario_opt_def)
  from history_alignment [of "(scenario_opt, scenario_store)"
      "[(None, None), (Some (Float 1), None)]" "mat2 6" "vec2 0" "''soft''" scenario_store
      None "Some (Float 2)" "vec2 1" 1 "vec2 1" "()"] h
  show ?thesis by simp
qed

subsection \<open>What the proximal operators change\<close>

lemma soft_prox_state:
  "\<exists>s'. snd (soft_prox v alpha (self, s)) = (self, s')
     \<and> (s' = write_vec s v (map abs (read_vec s v))
        \<or> (\<exists>w. s' = write_vec s v (map abs (read_vec s v)) @ [w]))
     \<and> (\<forall>p. fst (soft_prox v alpha (self, s)) = Inr p \<longrightarrow> buf p = length s)"
  by (auto simp: soft_prox.simps Let_def abs_by_sign alloc_def length_write
      split: sum.splits)

lemma hard_prox_state:
  "\<exists>s'. snd (hard_prox v (self, s)) = (self, s')
     \<and> (s' = s \<or> (\<exists>w. s' = s @ [w]))
     \<and> (\<forall>p. fst (hard_prox v (self, s)) = Inr p \<longrightarrow> buf p = length s)"
  by (auto simp: hard_prox.simps Let_def alloc_def split: sum.splits)

text \<open>
  Two calls of the soft proximal operator that change a stored field. In the first the
  optimizer stores the operator of buffer 7, whose row 0 is \<open>[-1, 0]\<close>, and the argument
  is that row: the operator is the identity afterwards. In the second the optimizer
  stores buffer 4, \<open>[-3, 4]\<close>, as its observations and the argument is that same array:
  the stored observations are \<open>[3, 4]\<close> afterwards.
\<close>

theorem prox_frame_counterexample:
  "read_mat (snd (snd (soft_prox \<lparr>buf = 7, idx = [0, 1]\<rparr> 1
                         (scenario_opt\<lparr>obs_mat := mat2 7\<rparr>, scenario_store)))) (mat2 7)
     = \<lparr>ncols = 2, rows = [[1, 0], [0, 1]]\<rparr>
   \<and> read_mat scenario_store (mat2 7) = \<lparr>ncols = 2, rows = [[-1, 0], [0, 1]]\<rparr>
   \<and> read_vec (snd (snd (soft_prox (vec2 4) 1 (scenario_opt\<lparr>obs := vec2 4\<rparr>, scenario_store))))
        (vec2 4) = [3, 4]
   \<and> read_vec scenario_store (vec2 4) = [-3, 4]
   \<and> read_mat (snd (snd (soft_prox \<lparr>buf = 7, idx = [0, 1]\<rparr> 1
                         (scenario_opt\<lparr>obs_mat := mat2 7\<rparr>, scenario_store)))) (mat2 7)
       \<noteq> read_mat scenario_store (mat2 7)
   \<and> read_vec (snd (snd (soft_prox (vec2 4) 1 (scenario_opt\<lparr>obs := vec2 4\<rparr>, scenario_store))))
        (vec2 4) \<noteq> read_vec scenario_store (vec2 4)"
  by (simp add: soft_prox.simps scenario_opt_def scenario_store_def
      Let_def np_sign_def np_broadcast_def np_getitem_def np_setitem_def np_imul_def
      bind_err_def alloc_def read_vec_def read_mat_def write_vec_def vec2_def mat2_def)

text \<open>
  The same happens through any other view of a stored field. Here the argument is column 0
  of the stored operator (\<^verbatim>\<open>M[:, 0]\<close>, cells 0 and 2 of buffer 7), and then a reversed
  slice of the stored observations (\<^verbatim>\<open>obs[::-1]\<close>, cells 1 and 0 of buffer 4).
\<close>

lemma soft_prox_through_views:
  "read_mat (snd (snd (soft_prox \<lparr>buf = 7, idx = [0, 2]\<rparr> 1
                         (scenario_opt\<lparr>obs_mat := mat2 7\<rparr>, scenario_store)))) (mat2 7)
     = \<lparr>ncols = 2, rows = [[1, 0], [0, 1]]\<rparr>
   \<and> shares_memory_mat \<lparr>buf = 7, idx = [0, 2]\<rparr> (mat2 7)
   \<and> read_vec (snd (snd (soft_prox \<lparr>buf = 4, idx = [1, 0]\<rparr> 1
                         (scenario_opt\<lparr>obs := vec2 4\<rparr>, scenario_store)))) (vec2 4) = [3, 4]
   \<and> shares_memory \<lparr>buf = 4, idx = [1, 0]\<rparr> (vec2 4)"
  by (simp add: soft_prox.simps scenario_opt_def scenario_store_def
      Let_def np_sign_def np_broadcast_def np_getitem_def np_setitem_def np_imul_def
      bind_err_def alloc_def read_vec_def read_mat_def write_vec_def vec2_def mat2_def
      shares_memory_def shares_memory_mat_def)

text \<open>
  Claim C8, amended. A call to the soft proximal operator leaves the stored observation
  array unchanged when its argument \<open>v\<close> shares no memory with it, and leaves the stored
  operator unchanged when \<open>v\<close> shares no memory with it; it never rebinds a field of the
  optimizer. Its only effect on the memory that exists before the call is overwriting
  the cells of \<open>v\<close> with their absolute values: every other cell keeps its value. The
  array it returns is a new one, sharing no memory with the stored fields. The hard
  proximal operator changes no memory that exists before the call (its argument
  included) and returns a new array; the objective changes nothing at all.
\<close>

theorem prox_frame:
  assumes "valid_ref s v" and "valid_ref s (obs self)" and "valid_mat s (obs_mat self)"
  shows "(\<not> shares_memory v (obs self) \<longrightarrow>
            read_vec (snd (snd (soft_prox v alpha (self, s)))) (obs self) = read_vec s (obs self))
       \<and> (\<not> shares_memory_mat v (obs_mat self) \<longrightarrow>
            read_mat (snd (snd (soft_prox v alpha (self, s)))) (obs_mat self)
              = read_mat s (obs_mat self))
       \<and> fst (snd (soft_prox v alpha (self, s))) = self
       \<and> read_vec (snd (snd (soft_prox v alpha (self, s)))) v = map abs (read_vec s v)
       \<and> (\<forall>c j. c < length s \<and> \<not> (c = buf v \<and> j \<in> set (idx v)) \<longrightarrow>
                snd (snd (soft_prox v alpha (self, s))) ! c ! j = s ! c ! j)
       \<and> (\<forall>p. fst (soft_prox v alpha (self, s)) = Inr p \<longrightarrow>
                \<not> valid_ref s p \<and> \<not> shares_memory p (obs self)
                \<and> \<not> shares_memory_mat p (obs_mat self))
       \<and> fst (snd (hard_prox v (self, s))) = self
       \<and> take (length s) (snd (snd (hard_prox v (self, s)))) = s
       \<and> read_vec (snd (snd (hard_prox v (self, s)))) (obs self) = read_vec s (obs self)
       \<and> read_mat (snd (snd (hard_prox v (self, s)))) (obs_mat self) = read_mat s (obs_mat self)
       \<and> read_vec (snd (snd (hard_prox v (self, s)))) v = read_vec s v
       \<and> (\<forall>p. fst (hard_prox v (self, s)) = Inr p \<longrightarrow>
                \<not> valid_ref s p \<and> \<not> shares_memory p (obs self)
                \<and> \<not> shares_memory_mat p (obs_mat self))
       \<and> snd (objective x (self, s)) = (self, s)"
proof -
  let ?s1 = "write_vec s v (map abs (read_vec s v))"
  from assms have bv: "buf v < length s" and bo: "buf (obs self) < length s"
    and bm: "mbuf (obs_mat self) < length s"
    by (simp_all add: valid_ref_def valid_mat_def)
  obtain s' where st: "snd (soft_prox v alpha (self, s)) = (self, s')"
    and s': "s' = ?s1 \<or> (\<exists>w. s' = ?s1 @ [w])"
    and fresh: "\<forall>p. fst (soft_prox v alpha (self, s)) = Inr p \<longrightarrow> buf p = length s"
    using soft_prox_state [of v alpha self s] by blast
  have oldv: "read_vec s' r = read_vec ?s1 r" if "buf r < length s" for r
    using that s' by (auto simp: read_extend_old length_write)
  have oldm: "read_mat s' m = read_mat ?s1 m" if "mbuf m < length s" for m
    using that s' by (auto simp: read_mat_extend_old length_write)
  have oldc: "s' ! c = ?s1 ! c" if "c < length s" for c
    using that s' by (auto simp: nth_append length_write)
  have a1: "read_vec s' (obs self) = read_vec s (obs self)" if "\<not> shares_memory v (obs self)"
    using that oldv [OF bo] assms(1) by (simp add: read_abs_in_place_other)
  have a2: "read_mat s' (obs_mat self) = read_mat s (obs_mat self)"
    if "\<not> shares_memory_mat v (obs_mat self)"
    using that oldm [OF bm] assms(1) by (simp add: read_mat_abs_in_place)
  have a3: "read_vec s' v = map abs (read_vec s v)"
    using oldv [OF bv] assms(1) by (simp add: read_abs_in_place_self)
  have a4: "s' ! c ! j = s ! c ! j" if "c < length s \<and> \<not> (c = buf v \<and> j \<in> set (idx v))" for c j
    using that oldc [of c] by (auto simp: abs_in_place_cell [OF assms(1)])
  have new: "\<not> valid_ref s p \<and> \<not> shares_memory p (obs self)
             \<and> \<not> shares_memory_mat p (obs_mat self)" if "buf p = length s" for p
    using that bo bm by (simp add: valid_ref_def shares_memory_def shares_memory_mat_def)
  have a5: "\<not> valid_ref s p \<and> \<not> shares_memory p (obs self)
            \<and> \<not> shares_memory_mat p (obs_mat self)"
    if "fst (soft_prox v alpha (self, s)) = Inr p" for p
    using that fresh new by blast
  obtain h' where ht: "snd (hard_prox v (self, s)) = (self, h')"
    and h': "h' = s \<or> (\<exists>w. h' = s @ [w])"
    and hfresh: "\<forall>p. fst (hard_prox v (self, s)) = Inr p \<longrightarrow> buf p = length s"
    using hard_prox_state [of v self s] by blast
  have b1: "take (length s) h' = s" using h' by auto
  have b2: "read_vec h' (obs self) = read_vec s (obs self)"
    using h' bo by (auto simp: read_extend_old)
  have b3: "read_mat h' (obs_mat self) = read_mat s (obs_mat self)"
    using h' bm by (auto simp: read_mat_extend_old)
  have b4: "read_vec h' v = read_vec s v"
    using h' bv by (auto simp: read_extend_old)
  have b5: "\<not> valid_ref s p \<and> \<not> shares_memory p (obs self)
            \<and> \<not> shares_memory_mat p (obs_mat self)"
    if "fst (hard_prox v (self, s)) = Inr p" for p
    using that hfresh new by blast
  have c: "snd (objective x (self, s)) = (self, s)"
    by (simp add: objective.simps)
  from st a1 a2 a3 a4 a5 ht b1 b2 b3 b4 b5 c show ?thesis by simp
qed

text \<open>
  In the scenario, with column 0 of the operator of buffer 7 as the argument (which the
  optimizer of the scenario does not store): the stored fields keep their values and the
  column holds its absolute value.
\<close>

theorem prox_frame_witness:
  "read_vec (snd (snd (soft_prox \<lparr>buf = 7, idx = [0, 2]\<rparr> 1 (scenario_opt, scenario_store))))
     (vec2 0) = [3, 4]
   \<and> read_mat (snd (snd (soft_prox \<lparr>buf = 7, idx = [0, 2]\<rparr> 1 (scenario_opt, scenario_store))))
       (mat2 6) = \<lparr>ncols = 2, rows = [[1, 0], [0, 1]]\<rparr>
   \<and> read_vec (snd (snd (soft_prox \<lparr>buf = 7, idx = [0, 2]\<rparr> 1 (scenario_opt, scenario_store))))
       \<lparr>buf = 7, idx = [0, 2]\<rparr> = [1, 0]"
proof -
  have h1: "valid_ref scenario_store \<lparr>buf = 7, idx = [0, 2]\<rparr>"
    by (simp add: valid_ref_def scenario_store_def)
  have h2: "valid_ref scenario_store (obs scenario_opt)"
    by (simp add: valid_ref_def vec2_def scenario_store_def scenario_opt_def)
  have h3: "valid_mat scenario_store (obs_mat scenario_opt)"
    by (simp add: valid_mat_def mat2_def scenario_store_def scenario_opt_def)
  have n1: "\<not> shares_memory \<lparr>buf = 7, idx = [0, 2]\<rparr> (obs scenario_opt)"
    by (simp add: shares_memory_def vec2_def scenario_opt_def)
  have n2: "\<not> shares_memory_mat \<lparr>buf = 7, idx = [0, 2]\<rparr> (obs_mat scenario_opt)"
    by (simp add: shares_memory_mat_def mat2_def scenario_opt_def)
  from prox_frame [OF h1 h2 h3, of 1] n1 n2 show ?thesis
    by (simp add: scenario_store_def scenario_opt_def read_vec_def read_mat_def
        vec2_def mat2_def)
qed

subsection \<open>The abstract method\<close>

text \<open>
  Claim C9. Calling \<^verbatim>\<open>phase_retrieval\<close> on the base class raises
  \<^verbatim>\<open>NotImplementedError\<close> for every value of the fit options, leaving the optimizer and
  the store as they were.
\<close>

theorem phase_retrieval_raises:
  "phase_retrieval fit_options st = (Inl NotImplementedError, st)"
  by (simp add: phase_retrieval_def)

subsection \<open>The objective-type selector\<close>

lemma with_type_soft:
  "soft_prox v alpha (with_type ty (self, s))
     = (fst (soft_prox v alpha (self, s)), with_type ty (snd (soft_prox v alpha (self, s))))"
  by (simp add: soft_prox.simps Let_def alloc_def split: sum.splits)

lemma with_type_hard:
  "hard_prox v (with_type ty (self, s))
     = (fst (hard_prox v (self, s)), with_type ty (snd (hard_prox v (self, s))))"
  by (simp add: hard_prox.simps Let_def alloc_def split: sum.splits)

text \<open>
  Claim C10. The constructor accepts any value as the objective type and stores it as
  given, and no operation of the base class reads it: on two optimizers that differ only
  in that field, the objective, both proximal operators, \<^verbatim>\<open>record_solver_info\<close> and
  \<^verbatim>\<open>reset_solver_info\<close> give the same result and leave states that again differ only in
  that field.
\<close>

theorem obj_type_never_read:
  "(\<exists>opt. Optimizer_init mat_ref obs_ref ty s0 = (Inr opt, s0) \<and> obj_type opt = ty
          \<and> Optimizer_init mat_ref obs_ref ty' s0 = (Inr (opt\<lparr>obj_type := ty'\<rparr>), s0))
   \<and> objective x (with_type ty st)
       = (fst (objective x st), with_type ty (snd (objective x st)))
   \<and> soft_prox v alpha (with_type ty st)
       = (fst (soft_prox v alpha st), with_type ty (snd (soft_prox v alpha st)))
   \<and> hard_prox v (with_type ty st)
       = (fst (hard_prox v st), with_type ty (snd (hard_prox v st)))
   \<and> record_solver_info obj err (with_type ty st)
       = (fst (record_solver_info obj err st), with_type ty (snd (record_solver_info obj err st)))
   \<and> reset_solver_info (with_type ty st)
       = (fst (reset_solver_info st), with_type ty (snd (reset_solver_info st)))"
proof -
  obtain self s where st: "st = (self, s)" by (cases st)
  have a: "\<exists>opt. Optimizer_init mat_ref obs_ref ty s0 = (Inr opt, s0) \<and> obj_type opt = ty
          \<and> Optimizer_init mat_ref obs_ref ty' s0 = (Inr (opt\<lparr>obj_type := ty'\<rparr>), s0)"
    by (simp add: Optimizer_init_def)
  have b: "objective x (with_type ty st)
       = (fst (objective x st), with_type ty (snd (objective x st)))"
    by (simp add: st objective.simps)
  have c: "record_solver_info obj err (with_type ty st)
       = (fst (record_solver_info obj err st), with_type ty (snd (record_solver_info obj err st)))"
    by (simp add: st Let_def)
  have d: "reset_solver_info (with_type ty st)
       = (fst (reset_solver_info st), with_type ty (snd (reset_solver_info st)))"
    by (simp add: st)
  from a b c d with_type_soft [of v alpha ty self s] with_type_hard [of v ty self s]
  show ?thesis unfolding st by blast
qed


end
